theory Spec2Isabelle
  imports Main "HOL-Library.Word"
begin

section \<open>The constant reporter \<^verbatim>\<open>offset.c\<close>\<close>

text \<open>
  The program is one call of \<^verbatim>\<open>printf\<close> in \<^verbatim>\<open>main\<close>. Its arguments are constant
  expressions over the platform's headers (\<^verbatim>\<open>fcntl.h\<close>, \<^verbatim>\<open>sys/stat.h\<close>,
  \<^verbatim>\<open>sys/mman.h\<close>), which are not part of the repository: the declaration of
  \<^verbatim>\<open>struct stat\<close> and the values of the macros are parameters of the model, collected
  in the record \<open>platform\<close>. The C data model is LP64 (the 64-bit POSIX platforms):
  \<^verbatim>\<open>int\<close> has 32 bits, \<^verbatim>\<open>long\<close>, \<^verbatim>\<open>long long\<close>, \<^verbatim>\<open>size_t\<close> and pointers have 64.
\<close>

subsection \<open>C types, \<^verbatim>\<open>sizeof\<close> and \<^verbatim>\<open>offsetof\<close>\<close>

datatype ctype =
    TChar | TShort | TInt | TLong | TLongLong | TPointer
  | TArray ctype nat
  | TStruct "(string \<times> ctype) list"

type_synonym members = "(string \<times> ctype) list"

text \<open>The next multiple of the alignment \<open>a\<close> at or after the offset \<open>off\<close>.\<close>

definition align_up :: "nat \<Rightarrow> nat \<Rightarrow> nat" where
  "align_up off a = ((off + a - 1) div a) * a"

text \<open>
  Alignment and size in bytes, by the rules the LP64 procedure-call standards share (the
  System V ABI for x86-64, AAPCS64). A scalar is aligned to its size; an array to its
  element; a structure to its most strictly aligned member. The members of a structure
  are laid out in the order of their declaration, each at the next offset that suits its
  alignment, and the structure is padded at its end to a multiple of its own alignment.
  Bit-fields, unions and packed structures are left out: \<^verbatim>\<open>struct stat\<close> has none.
\<close>

fun alignof :: "ctype \<Rightarrow> nat" where
  "alignof TChar = 1"
| "alignof TShort = 2"
| "alignof TInt = 4"
| "alignof TLong = 8"
| "alignof TLongLong = 8"
| "alignof TPointer = 8"
| "alignof (TArray t n) = alignof t"
| "alignof (TStruct ms) = fold (\<lambda>m a. max (alignof (snd m)) a) ms 1"

fun sizeof :: "ctype \<Rightarrow> nat" where
  "sizeof TChar = 1"
| "sizeof TShort = 2"
| "sizeof TInt = 4"
| "sizeof TLong = 8"
| "sizeof TLongLong = 8"
| "sizeof TPointer = 8"
| "sizeof (TArray t n) = n * sizeof t"
| "sizeof (TStruct ms) =
     align_up (fold (\<lambda>m off. align_up off (alignof (snd m)) + sizeof (snd m)) ms 0)
       (alignof (TStruct ms))"

text \<open>One step of the layout of a structure: the offset after placing a member.\<close>

abbreviation place :: "string \<times> ctype \<Rightarrow> nat \<Rightarrow> nat" where
  "place \<equiv> (\<lambda>m off. align_up off (alignof (snd m)) + sizeof (snd m))"

text \<open>
  \<^verbatim>\<open>offsetof(type, member)\<close>: the offset of the first member of that name, \<open>None\<close>
  where the type has no such member (the program does not compile).
\<close>

fun member_offset :: "nat \<Rightarrow> members \<Rightarrow> string \<Rightarrow> nat option" where
  "member_offset off [] f = None"
| "member_offset off (m # ms) f =
     (let start = align_up off (alignof (snd m))
      in if fst m = f then Some start else member_offset (start + sizeof (snd m)) ms f)"

fun offsetof :: "ctype \<Rightarrow> string \<Rightarrow> nat option" where
  "offsetof (TStruct ms) f = member_offset 0 ms f"
| "offsetof _ f = None"

text \<open>The type of a member, for the size of the field itself.\<close>

fun member_type :: "ctype \<Rightarrow> string \<Rightarrow> ctype option" where
  "member_type (TStruct ms) f = map_of ms f"
| "member_type _ f = None"

text \<open>
  \<^verbatim>\<open>size_t\<close> is \<^verbatim>\<open>unsigned long\<close>, 64 bits. A size or offset that does not fit is no
  value of the type: a compiler rejects an object type that large.
\<close>

type_synonym size_t = "64 word"

definition size_t_of :: "nat \<Rightarrow> size_t option" where
  "size_t_of n = (if n < 2 ^ 64 then Some (of_nat n) else None)"

subsection \<open>The platform's headers\<close>

record platform =
  struct_stat :: members
  O_RDONLY :: "32 word"
  O_WRONLY :: "32 word"
  O_RDWR :: "32 word"
  PROT_READ :: "32 word"
  PROT_WRITE :: "32 word"
  MADV_NORMAL :: "32 word"
  MADV_RANDOM :: "32 word"
  MADV_SEQUENTIAL :: "32 word"
  MADV_WILLNEED :: "32 word"
  MADV_DONTNEED :: "32 word"
  MAP_FAILED :: "64 word"
  MAP_SHARED :: "32 word"

text \<open>
  \<open>struct_stat\<close> is the member list of \<^verbatim>\<open>struct stat\<close>; the flags are \<^verbatim>\<open>int\<close>
  constants; \<open>MAP_FAILED\<close> is a pointer (\<^verbatim>\<open>(void *) -1\<close> in the usual headers).
\<close>

subsection \<open>Decimal conversion\<close>

definition digit_char :: "nat \<Rightarrow> char" where
  "digit_char d = char_of (48 + d)"

function dec_nat :: "nat \<Rightarrow> string" where
  "dec_nat n = (if n < 10 then [digit_char n] else dec_nat (n div 10) @ [digit_char (n mod 10)])"
  by pat_completeness auto
termination
  by (relation "measure id") auto

declare dec_nat.simps [simp del]

definition dec_int :: "int \<Rightarrow> string" where
  "dec_int i = (if i < 0 then CHR ''-'' # dec_nat (nat (- i)) else dec_nat (nat i))"

subsection \<open>\<^verbatim>\<open>printf\<close>\<close>

text \<open>
  The arguments of a variadic call, each with the type it is passed at. \<^verbatim>\<open>size_t\<close>
  values are passed as \<^verbatim>\<open>unsigned long\<close>.
\<close>

datatype cval = VInt "32 word" | VULong "64 word" | VLongLong "64 word"

text \<open>
  The format is read one character at a time; the state records how much of a conversion
  specification has been read. The conversions are those the program uses: \<^verbatim>\<open>%d\<close>,
  \<^verbatim>\<open>%lu\<close>, \<^verbatim>\<open>%zu\<close>, \<^verbatim>\<open>%lld\<close>, and \<^verbatim>\<open>%%\<close>. The result is \<open>None\<close> where C leaves the
  behaviour undefined (an argument that is missing or of another type than the conversion
  expects, a specification cut short) or where the conversion is none of these.
\<close>

datatype fstate = Text | Pct | Pct_l | Pct_ll | Pct_z

fun vformat :: "fstate \<Rightarrow> string \<Rightarrow> cval list \<Rightarrow> string option" where
  "vformat Text [] args = Some []"
| "vformat Text (c # fmt) args =
     (if c = CHR ''%'' then vformat Pct fmt args
      else map_option ((#) c) (vformat Text fmt args))"
| "vformat Pct (c # fmt) args =
     (if c = CHR ''%'' then map_option ((#) c) (vformat Text fmt args)
      else if c = CHR ''d'' then
        (case args of
           VInt v # rest \<Rightarrow> map_option ((@) (dec_int (sint v))) (vformat Text fmt rest)
         | _ \<Rightarrow> None)
      else if c = CHR ''l'' then vformat Pct_l fmt args
      else if c = CHR ''z'' then vformat Pct_z fmt args
      else None)"
| "vformat Pct_l (c # fmt) args =
     (if c = CHR ''u'' then
        (case args of
           VULong v # rest \<Rightarrow> map_option ((@) (dec_nat (unat v))) (vformat Text fmt rest)
         | _ \<Rightarrow> None)
      else if c = CHR ''l'' then vformat Pct_ll fmt args
      else None)"
| "vformat Pct_ll (c # fmt) args =
     (if c = CHR ''d'' then
        (case args of
           VLongLong v # rest \<Rightarrow> map_option ((@) (dec_int (sint v))) (vformat Text fmt rest)
         | _ \<Rightarrow> None)
      else None)"
| "vformat Pct_z (c # fmt) args =
     (if c = CHR ''u'' then
        (case args of
           VULong v # rest \<Rightarrow> map_option ((@) (dec_nat (unat v))) (vformat Text fmt rest)
         | _ \<Rightarrow> None)
      else None)"
| "vformat _ [] args = None"

text \<open>
  The process's view of the world: the bytes that have reached the file behind standard
  output, what a \<^verbatim>\<open>write\<close> to it does, and whether it is a terminal. A write is
  accepted; or it is refused with an error (the descriptor is closed, the device is full,
  the reader of the pipe is gone while \<^verbatim>\<open>SIGPIPE\<close> is ignored); or the reader of the
  pipe is gone and \<^verbatim>\<open>SIGPIPE\<close> has its default disposition, which the program never
  changes: the signal kills the process. Anything else the process could touch is the
  record's extension.
\<close>

datatype sink = Accepts | Refuses | Raises_SIGPIPE

record world =
  stdout :: string
  stdout_sink :: sink
  stdout_tty :: bool

datatype signal = SIGPIPE

datatype 'w written = Done 'w | Failed | Signalled signal

definition write_stdout :: "string \<Rightarrow> 'a world_scheme \<Rightarrow> 'a world_scheme written" where
  "write_stdout s w =
     (case stdout_sink w of
        Accepts \<Rightarrow> Done (w\<lparr>stdout := stdout w @ s\<rparr>)
      | Refuses \<Rightarrow> Failed
      | Raises_SIGPIPE \<Rightarrow> Signalled SIGPIPE)"

text \<open>
  The stream \<^verbatim>\<open>stdout\<close> of the C library has a buffer: the state of the running
  program is the text in the buffer and the world. The stream is line buffered when
  standard output is a terminal and fully buffered otherwise. The buffer is taken to be
  large enough for what the program prints (at most 408 characters; the buffers of the C
  libraries have 1024 bytes or more).
\<close>

type_synonym 'a stdio = "string \<times> 'a world_scheme"

text \<open>A call returns a value and a new state, or a signal ends the process in it.\<close>

datatype ('r, 's) step = Return 'r 's | Die signal

text \<open>A text up to and including its last newline, and what follows it.\<close>

definition complete_lines :: "string \<Rightarrow> string \<times> string" where
  "complete_lines s =
     (let rest = rev (takeWhile (\<lambda>c. c \<noteq> CHR 0x0A) (rev s))
      in (take (length s - length rest) s, rest))"

text \<open>
  \<^verbatim>\<open>printf\<close> puts the formatted text into the buffer and returns its length. On a
  line-buffered stream a newline in the text makes it write the buffer up to the last
  newline at once; when that write is refused it returns a negative number, and the text
  stays in the buffer.
\<close>

definition printf :: "string \<Rightarrow> cval list \<Rightarrow> 'a stdio \<Rightarrow> (int, 'a stdio) step option" where
  "printf fmt args st =
     (case vformat Text fmt args of
        None \<Rightarrow> None
      | Some s \<Rightarrow>
          (case st of
             (buf, w) \<Rightarrow>
               if stdout_tty w \<and> CHR 0x0A \<in> set s then
                 (case complete_lines (buf @ s) of
                    (ls, rest) \<Rightarrow>
                      (case write_stdout ls w of
                         Done w' \<Rightarrow> Some (Return (int (length s)) (rest, w'))
                       | Failed \<Rightarrow> Some (Return (- 1) (buf @ s, w))
                       | Signalled sig \<Rightarrow> Some (Die sig)))
               else Some (Return (int (length s)) (buf @ s, w))))"

subsection \<open>\<^verbatim>\<open>main\<close>\<close>

definition main_format :: string where
  \<open>main_format = ''{"statOffset": %zu, "statSize": %lu, "O_RDONLY": %d, "O_WRONLY": %d, "O_RDWR": %d, "PROT_READ": %d, "PROT_WRITE": %d, "MADV_NORMAL": %d, "MADV_RANDOM": %d, "MADV_SEQUENTIAL": %d, "MADV_WILLNEED": %d, "MADV_DONTNEED": %d, "MAP_FAILED": %lld, "MAP_SHARED": %d}\<newline>''\<close>

text \<open>
  \<^verbatim>\<open>(long long) MAP_FAILED\<close>: a pointer and a \<^verbatim>\<open>long long\<close> have the same width, and
  the conversion keeps the bits.
\<close>

definition llong_of_pointer :: "64 word \<Rightarrow> 64 word" where
  "llong_of_pointer p = p"

text \<open>
  The argument list of the call. The first two are constant expressions over
  \<^verbatim>\<open>struct stat\<close>, of type \<^verbatim>\<open>size_t\<close>; the list is \<open>None\<close> where they have no value.
\<close>

definition main_args :: "platform \<Rightarrow> cval list option" where
  "main_args p =
     (case Option.bind (offsetof (TStruct (struct_stat p)) ''st_size'') size_t_of of
        None \<Rightarrow> None
      | Some off \<Rightarrow>
     (case size_t_of (sizeof (TStruct (struct_stat p))) of
        None \<Rightarrow> None
      | Some sz \<Rightarrow>
          Some [VULong off, VULong sz,
            VInt (O_RDONLY p), VInt (O_WRONLY p), VInt (O_RDWR p),
            VInt (PROT_READ p), VInt (PROT_WRITE p),
            VInt (MADV_NORMAL p), VInt (MADV_RANDOM p), VInt (MADV_SEQUENTIAL p),
            VInt (MADV_WILLNEED p), VInt (MADV_DONTNEED p),
            VLongLong (llong_of_pointer (MAP_FAILED p)),
            VInt (MAP_SHARED p)]))"

datatype error = Compile_Error | Undefined_Behaviour | Killed signal

text \<open>
  \<^verbatim>\<open>main\<close> ignores \<open>argc\<close> and \<open>argv\<close>, calls \<^verbatim>\<open>printf\<close> once, drops what it returns
  and reaches its closing brace, which returns 0 from \<^verbatim>\<open>main\<close> (C99, 5.1.2.2.3).
\<close>

definition main :: "platform \<Rightarrow> 32 word \<Rightarrow> string list \<Rightarrow> 'a stdio \<Rightarrow> error + (32 word \<times> 'a stdio)" where
  "main p argc argv st =
     (case main_args p of
        None \<Rightarrow> Inl Compile_Error
      | Some args \<Rightarrow>
          (case printf main_format args st of
             None \<Rightarrow> Inl Undefined_Behaviour
           | Some (Die sig) \<Rightarrow> Inl (Killed sig)
           | Some (Return r st') \<Rightarrow> Inr (0, st')))"

text \<open>
  The return from \<^verbatim>\<open>main\<close> is a call of \<^verbatim>\<open>exit\<close>: what is left in the buffer is
  written, an error of that write is ignored, and the process ends with the status.
\<close>

definition exit_process :: "32 word \<Rightarrow> 'a stdio \<Rightarrow> error + (32 word \<times> 'a world_scheme)" where
  "exit_process status st =
     (case st of
        (buf, w) \<Rightarrow>
          if buf = [] then Inr (status, w)
          else (case write_stdout buf w of
                  Done w' \<Rightarrow> Inr (status, w')
                | Failed \<Rightarrow> Inr (status, w)
                | Signalled sig \<Rightarrow> Inl (Killed sig)))"

text \<open>
  A run of the program: \<^verbatim>\<open>main\<close> is called with an empty buffer, and its return exits.
  The result is the exit status and the world the process leaves, or the way it ended
  otherwise.
\<close>

definition run :: "platform \<Rightarrow> 32 word \<Rightarrow> string list \<Rightarrow> 'a world_scheme \<Rightarrow> error + (32 word \<times> 'a world_scheme)" where
  "run p argc argv w =
     (case main p argc argv ([], w) of
        Inl e \<Rightarrow> Inl e
      | Inr (status, st) \<Rightarrow> exit_process status st)"

text \<open>
  The program exists on a platform whose \<^verbatim>\<open>struct stat\<close> has a member \<^verbatim>\<open>st_size\<close>
  and a size that \<^verbatim>\<open>size_t\<close> can hold.
\<close>

definition builds :: "platform \<Rightarrow> bool" where
  "builds p \<longleftrightarrow>
     ''st_size'' \<in> fst ` set (struct_stat p) \<and> sizeof (TStruct (struct_stat p)) < 2 ^ 64"

section \<open>The record format, as the specification describes it\<close>

text \<open>
  A flat record is a list of named integers. Its text is a JSON object on one line: the
  pairs in order, each key in double quotes, each number in decimal, separated by a comma
  and a space, between braces, and a newline after the closing brace.
\<close>

definition render_pair :: "string \<times> int \<Rightarrow> string" where
  \<open>render_pair kv = ''"'' @ fst kv @ ''": '' @ dec_int (snd kv)\<close>

fun render_members :: "(string \<times> int) list \<Rightarrow> string" where
  "render_members [] = []"
| "render_members [kv] = render_pair kv"
| "render_members (kv # kvs) = render_pair kv @ '', '' @ render_members kvs"

definition record_line :: "(string \<times> int) list \<Rightarrow> string" where
  \<open>record_line kvs = ''{'' @ render_members kvs @ ''}\<newline>''\<close>

text \<open>
  The record of \<section>4.1: the fourteen fields in order, each with the value the
  specification gives it, for a platform and the offset and size of its file-status
  record. A flag is a signed \<^verbatim>\<open>int\<close>; \<open>MAP_FAILED\<close> is the sentinel read as a signed
  integer of 64 bits.
\<close>

definition field_names :: "string list" where
  "field_names =
     [''statOffset'', ''statSize'', ''O_RDONLY'', ''O_WRONLY'', ''O_RDWR'', ''PROT_READ'',
      ''PROT_WRITE'', ''MADV_NORMAL'', ''MADV_RANDOM'', ''MADV_SEQUENTIAL'', ''MADV_WILLNEED'',
      ''MADV_DONTNEED'', ''MAP_FAILED'', ''MAP_SHARED'']"

definition report :: "nat \<Rightarrow> nat \<Rightarrow> platform \<Rightarrow> (string \<times> int) list" where
  "report off sz p =
     [(''statOffset'', int off), (''statSize'', int sz),
      (''O_RDONLY'', sint (O_RDONLY p)), (''O_WRONLY'', sint (O_WRONLY p)),
      (''O_RDWR'', sint (O_RDWR p)),
      (''PROT_READ'', sint (PROT_READ p)), (''PROT_WRITE'', sint (PROT_WRITE p)),
      (''MADV_NORMAL'', sint (MADV_NORMAL p)), (''MADV_RANDOM'', sint (MADV_RANDOM p)),
      (''MADV_SEQUENTIAL'', sint (MADV_SEQUENTIAL p)),
      (''MADV_WILLNEED'', sint (MADV_WILLNEED p)),
      (''MADV_DONTNEED'', sint (MADV_DONTNEED p)),
      (''MAP_FAILED'', sint (MAP_FAILED p)), (''MAP_SHARED'', sint (MAP_SHARED p))]"

text \<open>A text is one line: it ends with a newline and has no other.\<close>

definition one_line :: "string \<Rightarrow> bool" where
  "one_line s \<longleftrightarrow> s \<noteq> [] \<and> last s = CHR 0x0A \<and> CHR 0x0A \<notin> set (butlast s)"

subsection \<open>Reading a flat JSON object\<close>

text \<open>
  A reader for the JSON objects whose values are integers: whitespace between the tokens,
  keys that are strings without escapes, numbers in JSON's integer syntax (an optional
  minus sign, then \<^verbatim>\<open>0\<close> or digits that do not start with \<^verbatim>\<open>0\<close>), nothing but whitespace
  after the closing brace. What it accepts is a JSON text; it returns the pairs in the
  order they stand in.
\<close>

definition is_ws :: "char \<Rightarrow> bool" where
  "is_ws c \<longleftrightarrow> c = CHR '' '' \<or> c = CHR 0x09 \<or> c = CHR 0x0A \<or> c = CHR 0x0D"

definition is_digit :: "char \<Rightarrow> bool" where
  "is_digit c \<longleftrightarrow> 48 \<le> (of_char c :: nat) \<and> (of_char c :: nat) \<le> 57"

definition digit_val :: "char \<Rightarrow> nat" where
  "digit_val c = of_char c - 48"

definition digits_val :: "string \<Rightarrow> nat" where
  "digits_val ds = foldl (\<lambda>a c. 10 * a + digit_val c) 0 ds"

definition plain_char :: "char \<Rightarrow> bool" where
  "plain_char c \<longleftrightarrow>
     c \<noteq> CHR 0x22 \<and> c \<noteq> CHR 0x5C \<and> 32 \<le> (of_char c :: nat) \<and> (of_char c :: nat) < 128"

definition json_string :: "string \<Rightarrow> (string \<times> string) option" where
  "json_string s =
     (case s of
        [] \<Rightarrow> None
      | c # r \<Rightarrow>
          if c \<noteq> CHR 0x22 then None
          else (case dropWhile plain_char r of
                  [] \<Rightarrow> None
                | q # r' \<Rightarrow> if q = CHR 0x22 then Some (takeWhile plain_char r, r') else None))"

definition json_digits :: "string \<Rightarrow> (nat \<times> string) option" where
  "json_digits s =
     (let ds = takeWhile is_digit s
      in if ds = [] \<or> (hd ds = CHR ''0'' \<and> 1 < length ds) then None
         else Some (digits_val ds, dropWhile is_digit s))"

definition json_int :: "string \<Rightarrow> (int \<times> string) option" where
  "json_int s =
     (case s of
        [] \<Rightarrow> None
      | c # r \<Rightarrow>
          if c = CHR ''-'' then map_option (\<lambda>(n, t). (- int n, t)) (json_digits r)
          else map_option (\<lambda>(n, t). (int n, t)) (json_digits s))"

definition json_pair :: "string \<Rightarrow> ((string \<times> int) \<times> string) option" where
  "json_pair s =
     (case json_string (dropWhile is_ws s) of
        None \<Rightarrow> None
      | Some (k, r) \<Rightarrow>
          (case dropWhile is_ws r of
             [] \<Rightarrow> None
           | c # r' \<Rightarrow>
               if c = CHR '':'' then
                 (case json_int (dropWhile is_ws r') of
                    None \<Rightarrow> None
                  | Some (v, r'') \<Rightarrow> Some ((k, v), r''))
               else None))"

function json_pairs :: "string \<Rightarrow> ((string \<times> int) list \<times> string) option" where
  "json_pairs s =
     (case json_pair s of
        None \<Rightarrow> None
      | Some (kv, r) \<Rightarrow>
          (case dropWhile is_ws r of
             [] \<Rightarrow> None
           | c # r' \<Rightarrow>
               if c = CHR '','' then map_option (\<lambda>(kvs, t). (kv # kvs, t)) (json_pairs r')
               else if c = CHR ''}'' then Some ([kv], r')
               else None))"
  by pat_completeness auto
termination
proof (relation "measure length")
  show "wf (measure length)" by simp
next
  fix s :: string and x2 kv r c r'
  assume pair: "json_pair s = Some x2" "(kv, r) = x2" and rest: "dropWhile is_ws r = c # r'"
  from pair obtain k r1 d r2 v where
    key: "json_string (dropWhile is_ws s) = Some (k, r1)" and
    colon: "dropWhile is_ws r1 = d # r2" and
    number: "json_int (dropWhile is_ws r2) = Some (v, r)"
    by (auto simp: json_pair_def split: option.splits list.splits if_splits)
  have "length (c # r') \<le> length r"
    unfolding rest [symmetric] by (rule length_dropWhile_le)
  also have "length r \<le> length (dropWhile is_ws r2)"
    using number
    by (auto simp: json_int_def json_digits_def Let_def length_dropWhile_le le_SucI
        split: list.splits if_splits)
  also have "\<dots> \<le> length r2" by (rule length_dropWhile_le)
  also have "\<dots> \<le> length (d # r2)" by simp
  also have "\<dots> \<le> length r1"
    unfolding colon [symmetric] by (rule length_dropWhile_le)
  also have "\<dots> \<le> length (dropWhile is_ws s)"
  proof -
    from key obtain q t where t: "dropWhile is_ws s = q # t"
      by (cases "dropWhile is_ws s") (auto simp: json_string_def)
    with key obtain q' where "dropWhile plain_char t = q' # r1"
      by (auto simp: json_string_def split: list.splits if_splits)
    then have "length (q' # r1) \<le> length t"
      by (metis length_dropWhile_le)
    with t show ?thesis by simp
  qed
  also have "\<dots> \<le> length s" by (rule length_dropWhile_le)
  finally show "(r', s) \<in> measure length" by simp
qed

declare json_pairs.simps [simp del]

definition json_object :: "string \<Rightarrow> (string \<times> int) list option" where
  "json_object s =
     (case dropWhile is_ws s of
        [] \<Rightarrow> None
      | c # r \<Rightarrow>
          if c \<noteq> CHR ''{'' then None
          else (case dropWhile is_ws r of
                  [] \<Rightarrow> None
                | d # r' \<Rightarrow>
                    if d = CHR ''}'' then (if dropWhile is_ws r' = [] then Some [] else None)
                    else (case json_pairs r of
                            None \<Rightarrow> None
                          | Some (kvs, t) \<Rightarrow> if dropWhile is_ws t = [] then Some kvs else None)))"

text \<open>
  A world whose standard output is an empty file that accepts writes; the record a
  consumer reads from a run in it, and a field of that record.
\<close>

definition fresh :: world where
  "fresh = \<lparr>stdout = [], stdout_sink = Accepts, stdout_tty = False\<rparr>"

definition emitted_record :: "platform \<Rightarrow> (string \<times> int) list option" where
  "emitted_record p =
     (case run p 0 [] fresh of
        Inl e \<Rightarrow> None
      | Inr (status, w) \<Rightarrow> json_object (stdout w))"

definition emitted_field :: "platform \<Rightarrow> string \<Rightarrow> int option" where
  "emitted_field p k = Option.bind (emitted_record p) (\<lambda>kvs. map_of kvs k)"

section \<open>A platform: Linux on x86-64\<close>

text \<open>
  \<^verbatim>\<open>struct stat\<close> and the constants as glibc's headers declare them for x86-64.
\<close>

definition timespec :: ctype where
  "timespec = TStruct [(''tv_sec'', TLong), (''tv_nsec'', TLong)]"

definition linux_stat :: members where
  "linux_stat =
     [(''st_dev'', TLong), (''st_ino'', TLong), (''st_nlink'', TLong),
      (''st_mode'', TInt), (''st_uid'', TInt), (''st_gid'', TInt), (''__pad0'', TInt),
      (''st_rdev'', TLong), (''st_size'', TLong), (''st_blksize'', TLong),
      (''st_blocks'', TLong),
      (''st_atim'', timespec), (''st_mtim'', timespec), (''st_ctim'', timespec),
      (''__glibc_reserved'', TArray TLong 3)]"

definition linux_x86_64 :: platform where
  "linux_x86_64 =
     \<lparr>struct_stat = linux_stat,
      O_RDONLY = 0, O_WRONLY = 1, O_RDWR = 2, PROT_READ = 1, PROT_WRITE = 2,
      MADV_NORMAL = 0, MADV_RANDOM = 1, MADV_SEQUENTIAL = 2, MADV_WILLNEED = 3,
      MADV_DONTNEED = 4, MAP_FAILED = - 1, MAP_SHARED = 1\<rparr>"

text \<open>
  Worlds for the examples: standard output is a terminal; a closed descriptor; a pipe
  whose reader is gone.
\<close>

definition terminal :: world where
  "terminal = \<lparr>stdout = [], stdout_sink = Accepts, stdout_tty = True\<rparr>"

definition closed_stdout :: world where
  "closed_stdout = \<lparr>stdout = [], stdout_sink = Refuses, stdout_tty = False\<rparr>"


section \<open>The layout of structures\<close>

lemma fold_max_ge: "a \<le> fold (\<lambda>m a. max (g m) a) ms (a::nat)"
proof (induction ms arbitrary: a)
  case Nil
  show ?case by simp
next
  case (Cons m ms)
  have "a \<le> max (g m) a" by simp
  also have "\<dots> \<le> fold (\<lambda>m a. max (g m) a) ms (max (g m) a)" by (rule Cons.IH)
  finally show ?case by simp
qed

lemma alignof_pos: "0 < alignof t"
proof (induction t)
  case (TStruct ms)
  have "1 \<le> fold (\<lambda>m a. max (alignof (snd m)) a) ms 1" by (rule fold_max_ge)
  then show ?case by simp
qed simp_all

lemma align_up_ge:
  assumes "0 < a"
  shows "off \<le> align_up off a"
proof -
  have "off + a - 1 < a + (off + a - 1) div a * a"
    using assms by (rule dividend_less_div_times)
  then show ?thesis
    using assms by (simp add: align_up_def)
qed

lemma align_up_dvd: "a dvd align_up off a"
  by (simp add: align_up_def)

lemma layout_mono: "off \<le> fold place ms off"
proof (induction ms arbitrary: off)
  case Nil
  show ?case by simp
next
  case (Cons m ms)
  have "off \<le> align_up off (alignof (snd m))"
    by (rule align_up_ge) (rule alignof_pos)
  also have "\<dots> \<le> place m off" by simp
  also have "\<dots> \<le> fold place ms (place m off)" by (rule Cons.IH)
  finally show ?case by simp
qed

lemma member_offset_within:
  assumes "member_offset off ms f = Some start" and "map_of ms f = Some t"
  shows "start + sizeof t \<le> fold place ms off"
  using assms
proof (induction ms arbitrary: off)
  case Nil
  then show ?case by simp
next
  case (Cons m ms)
  show ?case
  proof (cases "fst m = f")
    case True
    with Cons.prems have "start = align_up off (alignof (snd m))" and "t = snd m"
      by (auto simp: Let_def split: prod.splits)
    then have "start + sizeof t = place m off" by simp
    also have "\<dots> \<le> fold place ms (place m off)" by (rule layout_mono)
    finally show ?thesis by simp
  next
    case False
    with Cons.prems have "member_offset (place m off) ms f = Some start" and "map_of ms f = Some t"
      by (auto simp: Let_def split: prod.splits)
    then have "start + sizeof t \<le> fold place ms (place m off)" by (rule Cons.IH)
    then show ?thesis by simp
  qed
qed

lemma offsetof_within:
  assumes "offsetof T f = Some start" and "member_type T f = Some t"
  shows "start + sizeof t \<le> sizeof T"
proof (cases T)
  case (TStruct ms)
  with assms have "start + sizeof t \<le> fold place ms 0"
    by (simp add: member_offset_within)
  also have "\<dots> \<le> align_up (fold place ms 0) (alignof (TStruct ms))"
    by (rule align_up_ge) (rule alignof_pos)
  finally show ?thesis using TStruct by simp
qed (use assms in simp_all)

lemma member_offset_defined:
  "f \<in> fst ` set ms \<Longrightarrow> \<exists>start. member_offset off ms f = Some start"
  by (induction ms arbitrary: off) (auto simp: Let_def)

lemma member_type_defined:
  "f \<in> fst ` set ms \<Longrightarrow> \<exists>t. map_of ms f = Some t"
  by (induction ms) auto

lemma member_offset_le_end:
  "member_offset off ms f = Some start \<Longrightarrow> start \<le> fold place ms off"
proof (induction ms arbitrary: off)
  case Nil
  then show ?case by simp
next
  case (Cons m ms)
  show ?case
  proof (cases "fst m = f")
    case True
    with Cons.prems have "start = align_up off (alignof (snd m))"
      by (simp add: Let_def)
    then have "start \<le> place m off" by simp
    also have "\<dots> \<le> fold place ms (place m off)" by (rule layout_mono)
    finally show ?thesis by simp
  next
    case False
    with Cons.prems have "member_offset (place m off) ms f = Some start"
      by (simp add: Let_def)
    then have "start \<le> fold place ms (place m off)" by (rule Cons.IH)
    then show ?thesis by simp
  qed
qed

lemma offsetof_le_sizeof:
  assumes "offsetof T f = Some start"
  shows "start \<le> sizeof T"
proof (cases T)
  case (TStruct ms)
  with assms have "start \<le> fold place ms 0"
    by (simp add: member_offset_le_end)
  also have "\<dots> \<le> align_up (fold place ms 0) (alignof (TStruct ms))"
    by (rule align_up_ge) (rule alignof_pos)
  finally show ?thesis using TStruct by simp
qed (use assms in simp_all)

lemma member_offset_None: "f \<notin> fst ` set ms \<Longrightarrow> member_offset off ms f = None"
  by (induction ms arbitrary: off) (auto simp: Let_def)

section \<open>Decimal numbers\<close>

lemma of_char_digit_char: "d < 10 \<Longrightarrow> (of_char (digit_char d) :: nat) = 48 + d"
  by (simp add: digit_char_def)

lemma is_digit_digit_char: "d < 10 \<Longrightarrow> is_digit (digit_char d)"
  by (simp add: is_digit_def of_char_digit_char)

lemma digit_val_digit_char: "d < 10 \<Longrightarrow> digit_val (digit_char d) = d"
  by (simp add: digit_val_def of_char_digit_char)

lemma digit_char_eq_zero:
  assumes "d < 10" and "digit_char d = CHR ''0''"
  shows "d = 0"
proof -
  have "(of_char (digit_char d) :: nat) = of_char CHR ''0''" using assms(2) by simp
  with assms(1) show ?thesis by (simp add: of_char_digit_char)
qed

lemma is_digit_not_minus: "is_digit c \<Longrightarrow> c \<noteq> CHR ''-''"
  by (auto simp: is_digit_def)

lemma dec_nat_digits: "list_all is_digit (dec_nat n)"
proof (induction n rule: dec_nat.induct)
  case (1 n)
  show ?case
  proof (cases "n < 10")
    case True
    then show ?thesis by (simp add: dec_nat.simps [of n] is_digit_digit_char)
  next
    case False
    with "1" show ?thesis by (simp add: dec_nat.simps [of n] is_digit_digit_char)
  qed
qed

lemma dec_nat_not_Nil: "dec_nat n \<noteq> []"
  by (simp add: dec_nat.simps [of n])

lemma dec_nat_leading_zero:
  "hd (dec_nat n) = CHR ''0'' \<Longrightarrow> n = 0"
proof (induction n rule: dec_nat.induct)
  case (1 n)
  show ?case
  proof (cases "n < 10")
    case True
    with "1.prems" show ?thesis
      by (simp add: dec_nat.simps [of n] digit_char_eq_zero)
  next
    case False
    with "1.prems" have "hd (dec_nat (n div 10)) = CHR ''0''"
      by (simp add: dec_nat.simps [of n] dec_nat_not_Nil)
    with False "1.IH" have "n div 10 = 0" by simp
    with False show ?thesis by simp
  qed
qed

lemma dec_nat_zero: "dec_nat 0 = ''0''"
  by code_simp

lemma digits_val_snoc: "digits_val (ds @ [c]) = 10 * digits_val ds + digit_val c"
  by (simp add: digits_val_def)

lemma digits_val_dec_nat: "digits_val (dec_nat n) = n"
proof (induction n rule: dec_nat.induct)
  case (1 n)
  show ?case
  proof (cases "n < 10")
    case True
    then show ?thesis
      by (simp add: dec_nat.simps [of n] digits_val_def digit_val_digit_char)
  next
    case False
    with "1" show ?thesis
      by (simp add: dec_nat.simps [of n] digits_val_snoc digit_val_digit_char)
  qed
qed

lemma takeWhile_digits_dec_nat:
  "\<not> is_digit c \<Longrightarrow> takeWhile is_digit (dec_nat n @ c # rest) = dec_nat n"
  using dec_nat_digits [of n] by (simp add: takeWhile_append2 list_all_iff)

lemma dropWhile_digits_dec_nat:
  "\<not> is_digit c \<Longrightarrow> dropWhile is_digit (dec_nat n @ c # rest) = c # rest"
  using dec_nat_digits [of n] by (simp add: dropWhile_append2 list_all_iff)

lemma json_digits_dec_nat:
  assumes "\<not> is_digit c"
  shows "json_digits (dec_nat n @ c # rest) = Some (n, c # rest)"
proof -
  have "\<not> (hd (dec_nat n) = CHR ''0'' \<and> 1 < length (dec_nat n))"
  proof
    assume a: "hd (dec_nat n) = CHR ''0'' \<and> 1 < length (dec_nat n)"
    then have "n = 0" by (simp add: dec_nat_leading_zero)
    with a show False by (simp add: dec_nat_zero)
  qed
  with assms show ?thesis
    by (simp add: json_digits_def Let_def takeWhile_digits_dec_nat dropWhile_digits_dec_nat
        dec_nat_not_Nil digits_val_dec_nat)
qed

lemma json_int_dec_int:
  assumes "\<not> is_digit c"
  shows "json_int (dec_int i @ c # rest) = Some (i, c # rest)"
proof (cases "i < 0")
  case True
  then show ?thesis
    using assms by (simp add: json_int_def dec_int_def json_digits_dec_nat)
next
  case False
  obtain d ds where ds: "dec_nat (nat i) = d # ds"
    using dec_nat_not_Nil [of "nat i"] by (cases "dec_nat (nat i)") auto
  have "is_digit d"
    using dec_nat_digits [of "nat i"] by (simp add: ds)
  then have "d \<noteq> CHR ''-''" by (rule is_digit_not_minus)
  moreover have "json_digits (d # ds @ c # rest) = Some (nat i, c # rest)"
    using json_digits_dec_nat [OF assms, of "nat i" rest] by (simp add: ds)
  ultimately show ?thesis
    using False by (simp add: json_int_def dec_int_def ds)
qed

lemma json_string_plain:
  assumes "list_all plain_char k"
  shows "json_string (CHR 0x22 # k @ CHR 0x22 # rest) = Some (k, rest)"
proof -
  have q: "\<not> plain_char (CHR 0x22)" by (simp add: plain_char_def)
  have "takeWhile plain_char (k @ CHR 0x22 # rest) = k"
    using assms q by (simp add: takeWhile_append2 list_all_iff)
  moreover have "dropWhile plain_char (k @ CHR 0x22 # rest) = CHR 0x22 # rest"
    using assms q by (simp add: dropWhile_append2 list_all_iff)
  ultimately show ?thesis by (simp add: json_string_def)
qed

lemma is_ws_digit: "is_digit c \<Longrightarrow> \<not> is_ws c"
  by (auto simp: is_digit_def is_ws_def)

lemma dec_nat_no_leading_ws: "dropWhile is_ws (dec_nat n @ rest) = dec_nat n @ rest"
proof -
  obtain d ds where ds: "dec_nat n = d # ds"
    using dec_nat_not_Nil [of n] by (cases "dec_nat n") auto
  have "is_digit d"
    using dec_nat_digits [of n] by (simp add: ds)
  then have "\<not> is_ws d" by (rule is_ws_digit)
  then show ?thesis by (simp add: ds)
qed

lemma dropWhile_ws_dec_int: "dropWhile is_ws (dec_int i @ rest) = dec_int i @ rest"
proof (cases "i < 0")
  case True
  moreover have "\<not> is_ws CHR ''-''" by (simp add: is_ws_def)
  ultimately show ?thesis by (simp add: dec_int_def)
next
  case False
  then show ?thesis by (simp add: dec_int_def dec_nat_no_leading_ws)
qed

lemma json_pair_skip_space: "json_pair (CHR '' '' # s) = json_pair s"
  by (simp add: json_pair_def is_ws_def)

lemma json_pairs_skip_space: "json_pairs (CHR '' '' # s) = json_pairs s"
  by (simp add: json_pairs.simps [of "CHR '' '' # s"] json_pairs.simps [of s] json_pair_skip_space)

lemma json_pair_render:
  assumes "list_all plain_char k" and "\<not> is_digit c"
  shows "json_pair (render_pair (k, v) @ c # rest) = Some ((k, v), c # rest)"
proof -
  have "json_string (CHR 0x22 # k @ CHR 0x22 # CHR '':'' # CHR '' '' # dec_int v @ c # rest)
      = Some (k, CHR '':'' # CHR '' '' # dec_int v @ c # rest)"
    using assms(1) by (rule json_string_plain)
  moreover have "\<not> is_ws (CHR 0x22)" and "\<not> is_ws CHR '':''" and "is_ws CHR '' ''"
    by (simp_all add: is_ws_def)
  ultimately show ?thesis
    using assms(2)
    by (simp add: json_pair_def render_pair_def dropWhile_ws_dec_int json_int_dec_int)
qed

lemma json_pairs_render:
  assumes "kvs \<noteq> []" and "list_all (\<lambda>kv. list_all plain_char (fst kv)) kvs"
  shows "json_pairs (render_members kvs @ CHR ''}'' # rest) = Some (kvs, rest)"
  using assms
proof (induction kvs rule: render_members.induct)
  case 1
  then show ?case by simp
next
  case (2 kv)
  have "\<not> is_digit CHR ''}''" and "\<not> is_ws CHR ''}''"
    by (simp_all add: is_digit_def is_ws_def)
  moreover from "2.prems" have "list_all plain_char (fst kv)" by simp
  ultimately show ?case
    using json_pair_render [of "fst kv" "CHR ''}''" "snd kv" rest]
    by (simp add: json_pairs.simps [of "render_pair kv @ CHR ''}'' # rest"])
next
  case (3 kv kv' kvs)
  let ?tail = "render_members (kv' # kvs) @ CHR ''}'' # rest"
  have "\<not> is_digit CHR '',''" and "\<not> is_ws CHR '',''"
    by (simp_all add: is_digit_def is_ws_def)
  moreover from "3.prems" have "list_all plain_char (fst kv)" by simp
  moreover have "json_pairs (CHR '' '' # ?tail) = Some (kv' # kvs, rest)"
    using "3.IH" "3.prems" by (simp add: json_pairs_skip_space)
  ultimately show ?case
    using json_pair_render [of "fst kv" "CHR '',''" "snd kv" "CHR '' '' # ?tail"]
    by (simp add: json_pairs.simps [of "render_pair kv @ CHR '','' # CHR '' '' # ?tail"])
qed

lemma json_object_record_line:
  assumes "list_all (\<lambda>kv. list_all plain_char (fst kv)) kvs"
  shows "json_object (record_line kvs) = Some kvs"
proof (cases kvs)
  case Nil
  then show ?thesis by (simp add: json_object_def record_line_def is_ws_def)
next
  case (Cons kv kvs')
  obtain t where t: "render_members kvs = CHR 0x22 # t"
    by (cases kvs') (simp_all add: Cons render_pair_def)
  have "json_pairs (render_members kvs @ CHR ''}'' # ''\<newline>'') = Some (kvs, ''\<newline>'')"
    using assms Cons by (intro json_pairs_render) simp_all
  then show ?thesis
    by (simp add: json_object_def record_line_def is_ws_def t)
qed

section \<open>The output of \<^verbatim>\<open>main\<close>\<close>

lemma dec_int_uint: "dec_int (uint v) = dec_nat (unat v)"
  by (simp add: dec_int_def)

lemma vformat_main_format:
  "vformat Text main_format
     [VULong a, VULong b, VInt c1, VInt c2, VInt c3, VInt c4, VInt c5, VInt c6, VInt c7,
      VInt c8, VInt c9, VInt c10, VLongLong m, VInt c11] =
   Some (record_line
     [(''statOffset'', uint a), (''statSize'', uint b),
      (''O_RDONLY'', sint c1), (''O_WRONLY'', sint c2), (''O_RDWR'', sint c3),
      (''PROT_READ'', sint c4), (''PROT_WRITE'', sint c5),
      (''MADV_NORMAL'', sint c6), (''MADV_RANDOM'', sint c7), (''MADV_SEQUENTIAL'', sint c8),
      (''MADV_WILLNEED'', sint c9), (''MADV_DONTNEED'', sint c10),
      (''MAP_FAILED'', sint m), (''MAP_SHARED'', sint c11)])"
  by (simp add: main_format_def record_line_def render_pair_def dec_int_uint)

lemma uint_size_t: "n < 2 ^ 64 \<Longrightarrow> uint (of_nat n :: 64 word) = int n"
  by (simp add: uint_nat unat_of_nat take_bit_nat_eq_self)

lemma builds_offsetof:
  assumes "builds p"
  obtains off where "offsetof (TStruct (struct_stat p)) ''st_size'' = Some off"
    and "off < 2 ^ 64"
proof -
  from assms obtain off where off: "member_offset 0 (struct_stat p) ''st_size'' = Some off"
    using member_offset_defined [of "''st_size''" "struct_stat p" 0] by (auto simp: builds_def)
  then have "offsetof (TStruct (struct_stat p)) ''st_size'' = Some off" by simp
  moreover from this have "off \<le> sizeof (TStruct (struct_stat p))"
    by (rule offsetof_le_sizeof)
  with assms have "off < 2 ^ 64" by (simp add: builds_def)
  ultimately show ?thesis by (rule that)
qed

lemma main_args_builds:
  assumes "builds p" and "offsetof (TStruct (struct_stat p)) ''st_size'' = Some off"
  shows "main_args p =
    Some [VULong (of_nat off), VULong (of_nat (sizeof (TStruct (struct_stat p)))),
      VInt (O_RDONLY p), VInt (O_WRONLY p), VInt (O_RDWR p),
      VInt (PROT_READ p), VInt (PROT_WRITE p),
      VInt (MADV_NORMAL p), VInt (MADV_RANDOM p), VInt (MADV_SEQUENTIAL p),
      VInt (MADV_WILLNEED p), VInt (MADV_DONTNEED p),
      VLongLong (MAP_FAILED p), VInt (MAP_SHARED p)]"
proof -
  from assms(2) have "off \<le> sizeof (TStruct (struct_stat p))"
    by (rule offsetof_le_sizeof)
  with assms(1) have "off < 2 ^ 64" and "sizeof (TStruct (struct_stat p)) < 2 ^ 64"
    by (simp_all add: builds_def)
  with assms(2) show ?thesis
    by (simp add: main_args_def size_t_of_def llong_of_pointer_def del: sizeof.simps offsetof.simps)
qed

lemma main_args_None:
  assumes "\<not> builds p"
  shows "main_args p = None"
proof (cases "sizeof (TStruct (struct_stat p)) < 2 ^ 64")
  case True
  with assms have "''st_size'' \<notin> fst ` set (struct_stat p)" by (simp add: builds_def)
  then have "offsetof (TStruct (struct_stat p)) ''st_size'' = None"
    by (simp add: member_offset_None)
  then show ?thesis by (simp add: main_args_def del: sizeof.simps offsetof.simps)
next
  case False
  then show ?thesis
    by (simp add: main_args_def size_t_of_def del: sizeof.simps offsetof.simps split: option.splits)
qed

lemma format_report:
  assumes "builds p" and "offsetof (TStruct (struct_stat p)) ''st_size'' = Some off"
    and "main_args p = Some args"
  shows "vformat Text main_format args =
    Some (record_line (report off (sizeof (TStruct (struct_stat p))) p))"
proof -
  from assms(2) have "off \<le> sizeof (TStruct (struct_stat p))"
    by (rule offsetof_le_sizeof)
  with assms(1) have "off < 2 ^ 64" and "sizeof (TStruct (struct_stat p)) < 2 ^ 64"
    by (simp_all add: builds_def)
  then show ?thesis
    using assms(3) unfolding main_args_builds [OF assms(1,2)]
    by (auto simp add: vformat_main_format report_def uint_size_t simp del: sizeof.simps)
qed

lemma report_keys: "map fst (report off sz p) = field_names"
  by (simp add: report_def field_names_def)

lemma report_plain: "list_all (\<lambda>kv. list_all plain_char (fst kv)) (report off sz p)"
  by (simp add: report_def plain_char_def)

lemma json_object_report: "json_object (record_line (report off sz p)) = Some (report off sz p)"
  using report_plain by (rule json_object_record_line)

lemma dec_nat_chars: "c \<in> set (dec_nat n) \<Longrightarrow> is_digit c"
  using dec_nat_digits [of n] by (simp add: list_all_iff)

lemma dec_int_no_newline: "CHR 0x0A \<notin> set (dec_int i)"
proof
  assume "CHR 0x0A \<in> set (dec_int i)"
  then have "CHR 0x0A \<in> set (dec_nat (nat (- i))) \<or> CHR 0x0A \<in> set (dec_nat (nat i))"
    by (auto simp: dec_int_def split: if_splits)
  then have "is_digit (CHR 0x0A)" by (auto dest: dec_nat_chars)
  then show False by (simp add: is_digit_def)
qed

lemma plain_no_newline:
  assumes "list_all plain_char k"
  shows "CHR 0x0A \<notin> set k"
proof
  assume "CHR 0x0A \<in> set k"
  with assms have "plain_char (CHR 0x0A)" by (simp add: list_all_iff)
  then show False by (simp add: plain_char_def)
qed

lemma render_members_no_newline:
  "list_all (\<lambda>kv. list_all plain_char (fst kv)) kvs \<Longrightarrow> CHR 0x0A \<notin> set (render_members kvs)"
  by (induction kvs rule: render_members.induct)
    (simp_all add: render_pair_def dec_int_no_newline plain_no_newline)

lemma one_line_record_line:
  "list_all (\<lambda>kv. list_all plain_char (fst kv)) kvs \<Longrightarrow> one_line (record_line kvs)"
  by (simp add: one_line_def record_line_def butlast_append render_members_no_newline)

lemma one_line_has_newline: "one_line s \<Longrightarrow> CHR 0x0A \<in> set s"
  using last_in_set [of s] by (auto simp: one_line_def)

lemma complete_lines_one_line:
  assumes "one_line s"
  shows "complete_lines s = (s, [])"
proof -
  define body where "body = butlast s"
  have s: "s = body @ [CHR 0x0A]"
    unfolding body_def using assms append_butlast_last_id [of s] by (simp add: one_line_def)
  show ?thesis unfolding s by (simp add: complete_lines_def)
qed

lemma record_line_not_Nil: "record_line kvs \<noteq> []"
  by (simp add: record_line_def)

lemma printf_report:
  assumes "builds p" and "offsetof (TStruct (struct_stat p)) ''st_size'' = Some off"
    and "main_args p = Some args"
  shows "printf main_format args ([], w) =
    Some (let line = record_line (report off (sizeof (TStruct (struct_stat p))) p)
          in if stdout_tty w then
               (case stdout_sink w of
                  Accepts \<Rightarrow> Return (int (length line)) ([], w\<lparr>stdout := stdout w @ line\<rparr>)
                | Refuses \<Rightarrow> Return (- 1) (line, w)
                | Raises_SIGPIPE \<Rightarrow> Die SIGPIPE)
             else Return (int (length line)) (line, w))"
proof -
  let ?line = "record_line (report off (sizeof (TStruct (struct_stat p))) p)"
  have f: "vformat Text main_format args = Some ?line"
    using assms by (rule format_report)
  have l: "one_line ?line"
    using report_plain by (rule one_line_record_line)
  show ?thesis
    by (cases "stdout_sink w")
      (simp_all add: printf_def f one_line_has_newline [OF l] complete_lines_one_line [OF l]
        write_stdout_def Let_def del: sizeof.simps)
qed

lemma run_builds:
  assumes "builds p" and "offsetof (TStruct (struct_stat p)) ''st_size'' = Some off"
  shows "run p argc argv w =
    (case stdout_sink w of
       Accepts \<Rightarrow>
         Inr (0, w\<lparr>stdout := stdout w @ record_line (report off (sizeof (TStruct (struct_stat p))) p)\<rparr>)
     | Refuses \<Rightarrow> Inr (0, w)
     | Raises_SIGPIPE \<Rightarrow> Inl (Killed SIGPIPE))"
proof -
  obtain args where args: "main_args p = Some args"
    using main_args_builds [OF assms] by simp
  show ?thesis
    by (cases "stdout_sink w"; cases "stdout_tty w")
      (simp_all add: run_def main_def args printf_report [OF assms args] exit_process_def
        write_stdout_def record_line_not_Nil Let_def del: sizeof.simps)
qed

lemma main_not_builds: "\<not> builds p \<Longrightarrow> main p argc argv st = Inl Compile_Error"
  by (simp add: main_def main_args_None)

lemma run_not_builds: "\<not> builds p \<Longrightarrow> run p argc argv w = Inl Compile_Error"
  by (simp add: run_def main_not_builds)

lemma run_never_undefined: "run p argc argv w \<noteq> Inl Undefined_Behaviour"
proof (cases "builds p")
  case True
  then obtain off where "offsetof (TStruct (struct_stat p)) ''st_size'' = Some off"
    by (rule builds_offsetof)
  with True show ?thesis
    by (cases "stdout_sink w") (simp_all add: run_builds del: sizeof.simps offsetof.simps)
next
  case False
  then show ?thesis by (simp add: run_not_builds)
qed

lemma emitted_record_builds:
  assumes "builds p" and "offsetof (TStruct (struct_stat p)) ''st_size'' = Some off"
  shows "emitted_record p = Some (report off (sizeof (TStruct (struct_stat p))) p)"
  by (simp add: emitted_record_def run_builds [OF assms] fresh_def json_object_report
      del: sizeof.simps offsetof.simps)

lemma emitted_field_builds:
  assumes "builds p" and "offsetof (TStruct (struct_stat p)) ''st_size'' = Some off"
  shows "emitted_field p k = map_of (report off (sizeof (TStruct (struct_stat p))) p) k"
  by (simp add: emitted_field_def emitted_record_builds [OF assms] del: sizeof.simps offsetof.simps)

lemma report_stat:
  "map_of (report off sz p) ''statOffset'' = Some (int off)"
  "map_of (report off sz p) ''statSize'' = Some (int sz)"
  by (simp_all add: report_def)

lemma report_flags:
  "map_of (report off sz p) ''O_RDONLY'' = Some (sint (O_RDONLY p))"
  "map_of (report off sz p) ''O_WRONLY'' = Some (sint (O_WRONLY p))"
  "map_of (report off sz p) ''O_RDWR'' = Some (sint (O_RDWR p))"
  "map_of (report off sz p) ''PROT_READ'' = Some (sint (PROT_READ p))"
  "map_of (report off sz p) ''PROT_WRITE'' = Some (sint (PROT_WRITE p))"
  "map_of (report off sz p) ''MAP_SHARED'' = Some (sint (MAP_SHARED p))"
  by (simp_all add: report_def)

lemma report_map_failed:
  "map_of (report off sz p) ''MAP_FAILED'' = Some (sint (MAP_FAILED p))"
  by (simp add: report_def)

lemma zip_report: "zip field_names (map snd (report off sz p)) = report off sz p"
  by (simp add: report_def field_names_def)

lemma length_report: "length (report off sz p) = 14"
  by (simp add: report_def)

section \<open>The length of the line\<close>

lemma dec_nat_length: "n < 10 ^ k \<Longrightarrow> 0 < k \<Longrightarrow> length (dec_nat n) \<le> k"
proof (induction k arbitrary: n)
  case 0
  then show ?case by simp
next
  case (Suc k)
  show ?case
  proof (cases "n < 10")
    case True
    then show ?thesis by (simp add: dec_nat.simps [of n])
  next
    case False
    with Suc.prems have "n div 10 < 10 ^ k" by (simp add: less_mult_imp_div_less mult.commute)
    moreover from False this have "0 < k" by (cases k) auto
    ultimately have "length (dec_nat (n div 10)) \<le> k" by (rule Suc.IH)
    with False show ?thesis by (simp add: dec_nat.simps [of n])
  qed
qed

lemma nat_abs_less_power: "\<bar>i\<bar> < 10 ^ k \<Longrightarrow> nat \<bar>i\<bar> < 10 ^ k"
proof -
  assume a: "\<bar>i\<bar> < 10 ^ k"
  have "int (nat \<bar>i\<bar>) = \<bar>i\<bar>" by simp
  also have "\<dots> < 10 ^ k" by (rule a)
  also have "(10::int) ^ k = int (10 ^ k)" by simp
  finally show ?thesis by (simp only: of_nat_less_iff)
qed

lemma dec_int_length:
  assumes "\<bar>i\<bar> < 10 ^ k" and "0 < k"
  shows "length (dec_int i) \<le> Suc k"
proof -
  have "nat \<bar>i\<bar> < 10 ^ k" using assms(1) by (rule nat_abs_less_power)
  then have l: "length (dec_nat (nat \<bar>i\<bar>)) \<le> k" using assms(2) by (rule dec_nat_length)
  show ?thesis
  proof (cases "i < 0")
    case True
    then have "\<bar>i\<bar> = - i" by simp
    with l have "length (dec_nat (nat (- i))) \<le> k" by (simp only:)
    with True show ?thesis by (simp add: dec_int_def)
  next
    case False
    then have "\<bar>i\<bar> = i" by simp
    with l have "length (dec_nat (nat i)) \<le> k" by (simp only:)
    with False show ?thesis by (simp add: dec_int_def)
  qed
qed

lemma length_dec_size: "n < 2 ^ 64 \<Longrightarrow> length (dec_int (int n)) \<le> 20"
proof -
  assume "n < 2 ^ 64"
  then have "n < 10 ^ 20" by simp
  then have "length (dec_nat n) \<le> 20" by (rule dec_nat_length) simp
  then show ?thesis by (simp add: dec_int_def)
qed

lemma length_dec_int32: "length (dec_int (sint (v :: 32 word))) \<le> 11"
proof -
  have "- (2 ^ 31) \<le> sint v" and "sint v < 2 ^ 31"
    using sint_ge [of v] sint_lt [of v] by simp_all
  then have "\<bar>sint v\<bar> < 10 ^ 10" by simp
  then have "length (dec_int (sint v)) \<le> Suc 10" by (rule dec_int_length) simp
  then show ?thesis by simp
qed

lemma length_dec_int64: "length (dec_int (sint (v :: 64 word))) \<le> 20"
proof -
  have "- (2 ^ 63) \<le> sint v" and "sint v < 2 ^ 63"
    using sint_ge [of v] sint_lt [of v] by simp_all
  then have "\<bar>sint v\<bar> < 10 ^ 19" by simp
  then have "length (dec_int (sint v)) \<le> Suc 19" by (rule dec_int_length) simp
  then show ?thesis by simp
qed

lemma length_line:
  assumes "off < 2 ^ 64" and "sz < 2 ^ 64"
  shows "length (record_line (report off sz p)) \<le> 408"
  using length_dec_size [OF assms(1)] length_dec_size [OF assms(2)]
    length_dec_int32 [of "O_RDONLY p"] length_dec_int32 [of "O_WRONLY p"]
    length_dec_int32 [of "O_RDWR p"] length_dec_int32 [of "PROT_READ p"]
    length_dec_int32 [of "PROT_WRITE p"] length_dec_int32 [of "MADV_NORMAL p"]
    length_dec_int32 [of "MADV_RANDOM p"] length_dec_int32 [of "MADV_SEQUENTIAL p"]
    length_dec_int32 [of "MADV_WILLNEED p"] length_dec_int32 [of "MADV_DONTNEED p"]
    length_dec_int32 [of "MAP_SHARED p"] length_dec_int64 [of "MAP_FAILED p"]
  by (simp add: record_line_def report_def render_pair_def)

section \<open>The Linux platform, evaluated\<close>

lemma sizeof_timespec: "sizeof timespec = 16" and alignof_timespec: "alignof timespec = 8"
  by (simp_all add: timespec_def align_up_def)

lemma offsetof_linux_stat: "offsetof (TStruct linux_stat) ''st_size'' = Some 48"
  by (simp add: linux_stat_def align_up_def sizeof_timespec alignof_timespec)

lemma sizeof_linux_stat: "sizeof (TStruct linux_stat) = 144"
  by (simp add: linux_stat_def align_up_def sizeof_timespec alignof_timespec)

lemma member_type_linux_stat: "member_type (TStruct linux_stat) ''st_size'' = Some TLong"
  by (simp add: linux_stat_def)

lemma struct_stat_linux: "struct_stat linux_x86_64 = linux_stat"
  by (simp add: linux_x86_64_def)

lemma builds_linux: "builds linux_x86_64"
  unfolding builds_def struct_stat_linux sizeof_linux_stat
  by (simp add: linux_stat_def)

lemma main_args_linux:
  "main_args linux_x86_64 =
     Some [VULong 48, VULong 144, VInt 0, VInt 1, VInt 2, VInt 1, VInt 2,
           VInt 0, VInt 1, VInt 2, VInt 3, VInt 4, VLongLong (- 1), VInt 1]"
  using main_args_builds [OF builds_linux, of 48]
  by (simp add: struct_stat_linux offsetof_linux_stat sizeof_linux_stat linux_x86_64_def
      del: sizeof.simps offsetof.simps)

lemma digit_chars:
  "digit_char 0 = CHR ''0''" "digit_char 1 = CHR ''1''" "digit_char 2 = CHR ''2''"
  "digit_char 3 = CHR ''3''" "digit_char 4 = CHR ''4''" "digit_char 5 = CHR ''5''"
  "digit_char 6 = CHR ''6''" "digit_char 7 = CHR ''7''" "digit_char 8 = CHR ''8''"
  "digit_char 9 = CHR ''9''" "digit_char (Suc 0) = CHR ''1''"
  by code_simp+

lemma linux_line:
  \<open>record_line (report 48 144 linux_x86_64) =
     ''{"statOffset": 48, "statSize": 144, "O_RDONLY": 0, "O_WRONLY": 1, "O_RDWR": 2, "PROT_READ": 1, "PROT_WRITE": 2, "MADV_NORMAL": 0, "MADV_RANDOM": 1, "MADV_SEQUENTIAL": 2, "MADV_WILLNEED": 3, "MADV_DONTNEED": 4, "MAP_FAILED": -1, "MAP_SHARED": 1}\<newline>''\<close>
  by (simp add: record_line_def report_def render_pair_def linux_x86_64_def dec_int_def
      dec_nat.simps digit_chars)

lemma run_linux_cases:
  "run linux_x86_64 argc argv w =
    (case stdout_sink w of
       Accepts \<Rightarrow> Inr (0, w\<lparr>stdout := stdout w @ record_line (report 48 144 linux_x86_64)\<rparr>)
     | Refuses \<Rightarrow> Inr (0, w)
     | Raises_SIGPIPE \<Rightarrow> Inl (Killed SIGPIPE))"
  using run_builds [OF builds_linux, unfolded struct_stat_linux sizeof_linux_stat,
      OF offsetof_linux_stat, of argc argv w] .

lemma run_linux:
  \<open>run linux_x86_64 1 [''offset''] fresh =
     Inr (0, \<lparr>stdout = ''{"statOffset": 48, "statSize": 144, "O_RDONLY": 0, "O_WRONLY": 1, "O_RDWR": 2, "PROT_READ": 1, "PROT_WRITE": 2, "MADV_NORMAL": 0, "MADV_RANDOM": 1, "MADV_SEQUENTIAL": 2, "MADV_WILLNEED": 3, "MADV_DONTNEED": 4, "MAP_FAILED": -1, "MAP_SHARED": 1}\<newline>'',
              stdout_sink = Accepts, stdout_tty = False\<rparr>)\<close>
  by (simp add: run_linux_cases linux_line [symmetric] fresh_def)

lemma run_linux_terminal:
  "run linux_x86_64 1 [''offset''] terminal = Inr (0, terminal\<lparr>stdout := record_line (report 48 144 linux_x86_64)\<rparr>)"
  by (simp add: run_linux_cases terminal_def)

lemma printf_linux_closed:
  "printf main_format
     [VULong 48, VULong 144, VInt 0, VInt 1, VInt 2, VInt 1, VInt 2,
      VInt 0, VInt 1, VInt 2, VInt 3, VInt 4, VLongLong (- 1), VInt 1] ([], closed_stdout) =
     Some (Return 245 (record_line (report 48 144 linux_x86_64), closed_stdout))"
proof -
  have "length (record_line (report 48 144 linux_x86_64)) = 245"
    unfolding linux_line by simp
  then show ?thesis
    using printf_report [OF builds_linux, unfolded struct_stat_linux sizeof_linux_stat,
        OF offsetof_linux_stat main_args_linux, of closed_stdout]
    by (simp add: closed_stdout_def Let_def)
qed

section \<open>The claims\<close>

text \<open>
  C1. Where standard output accepts the write, a run appends to it exactly one line, and
  the line is the text of a record of fourteen integers in decimal under the fourteen
  names of \<section>4.1, in that order: nothing else is written.
\<close>

theorem main_writes_one_record:
  assumes "builds p" and "stdout_sink w = Accepts"
  shows "\<exists>vs. length vs = 14 \<and>
    run p argc argv w = Inr (0, w\<lparr>stdout := stdout w @ record_line (zip field_names vs)\<rparr>) \<and>
    one_line (record_line (zip field_names vs))"
proof -
  from assms(1) obtain off where off: "offsetof (TStruct (struct_stat p)) ''st_size'' = Some off"
    by (rule builds_offsetof)
  let ?r = "report off (sizeof (TStruct (struct_stat p))) p"
  have r: "zip field_names (map snd ?r) = ?r" by (rule zip_report)
  have "run p argc argv w = Inr (0, w\<lparr>stdout := stdout w @ record_line ?r\<rparr>)"
    using assms(2) by (simp add: run_builds [OF assms(1) off] del: sizeof.simps)
  moreover have "one_line (record_line ?r)"
    using report_plain by (rule one_line_record_line)
  ultimately have "length (map snd ?r) = 14 \<and>
      run p argc argv w =
        Inr (0, w\<lparr>stdout := stdout w @ record_line (zip field_names (map snd ?r))\<rparr>) \<and>
      one_line (record_line (zip field_names (map snd ?r)))"
    unfolding r by (simp add: length_report)
  then show ?thesis by blast
qed

theorem main_writes_one_record_linux:
  "builds linux_x86_64 \<and> stdout_sink fresh = Accepts \<and>
   (\<exists>vs. length vs = 14 \<and>
      run linux_x86_64 1 [''offset''] fresh =
        Inr (0, fresh\<lparr>stdout := stdout fresh @ record_line (zip field_names vs)\<rparr>) \<and>
      one_line (record_line (zip field_names vs)))"
  using main_writes_one_record [of linux_x86_64 fresh 1 "[''offset'']"] builds_linux
  by (simp add: fresh_def)

text \<open>
  C2. In the emitted record, \<open>statOffset\<close> is \<^verbatim>\<open>offsetof(struct stat, st_size)\<close> and
  \<open>statSize\<close> is \<^verbatim>\<open>sizeof(struct stat)\<close>, for the platform's declaration of the
  structure.
\<close>

theorem stat_fields_emitted:
  assumes "builds p"
  shows "offsetof (TStruct (struct_stat p)) ''st_size'' \<noteq> None \<and>
    emitted_field p ''statOffset'' = map_option int (offsetof (TStruct (struct_stat p)) ''st_size'') \<and>
    emitted_field p ''statSize'' = Some (int (sizeof (TStruct (struct_stat p))))"
proof -
  from assms obtain off where off: "offsetof (TStruct (struct_stat p)) ''st_size'' = Some off"
    by (rule builds_offsetof)
  show ?thesis
    unfolding emitted_field_builds [OF assms off] off by (simp add: report_stat del: sizeof.simps)
qed

theorem stat_fields_emitted_linux:
  "builds linux_x86_64 \<and> emitted_field linux_x86_64 ''statOffset'' = Some 48 \<and>
   emitted_field linux_x86_64 ''statSize'' = Some 144"
  using stat_fields_emitted [of linux_x86_64] builds_linux
  by (simp add: struct_stat_linux offsetof_linux_stat sizeof_linux_stat del: sizeof.simps offsetof.simps)

text \<open>
  C3. \<open>MAP_FAILED\<close> is emitted as a signed decimal number of 64 bits; read back into 64
  bits it is the platform's sentinel, bit for bit; where the sentinel is the pointer of
  all ones, the number is -1.
\<close>

theorem map_failed_emitted:
  assumes "builds p"
  shows "\<exists>v. emitted_field p ''MAP_FAILED'' = Some v \<and> - (2 ^ 63) \<le> v \<and> v < 2 ^ 63 \<and>
    (word_of_int v :: 64 word) = MAP_FAILED p \<and> (MAP_FAILED p = - 1 \<longrightarrow> v = - 1)"
proof -
  from assms obtain off where off: "offsetof (TStruct (struct_stat p)) ''st_size'' = Some off"
    by (rule builds_offsetof)
  have "emitted_field p ''MAP_FAILED'' = Some (sint (MAP_FAILED p))"
    unfolding emitted_field_builds [OF assms off] by (rule report_map_failed)
  moreover have "- (2 ^ 63) \<le> sint (MAP_FAILED p)"
    using sint_ge [of "MAP_FAILED p"] by simp
  moreover have "sint (MAP_FAILED p) < 2 ^ 63"
    using sint_lt [of "MAP_FAILED p"] by simp
  moreover have "(word_of_int (sint (MAP_FAILED p)) :: 64 word) = MAP_FAILED p" by simp
  moreover have "MAP_FAILED p = - 1 \<longrightarrow> sint (MAP_FAILED p) = - 1" by simp
  ultimately show ?thesis by blast
qed

theorem map_failed_emitted_linux:
  "builds linux_x86_64 \<and> MAP_FAILED linux_x86_64 = - 1 \<and>
   emitted_field linux_x86_64 ''MAP_FAILED'' = Some (- 1)"
  using map_failed_emitted [of linux_x86_64] builds_linux
  by (auto simp add: linux_x86_64_def)

text \<open>
  C4. \<^verbatim>\<open>main\<close> reads neither \<open>argc\<close> nor \<open>argv\<close>: two calls from the same state that
  differ in their arguments do the same, and so do two runs of the program from the same
  world.
\<close>

theorem main_ignores_arguments:
  "main p argc argv st = main p argc' argv' st \<and> run p argc argv w = run p argc' argv' w"
  by (simp add: main_def run_def)

theorem main_ignores_arguments_linux:
  "main linux_x86_64 3 [''offset'', ''--help'', ''x''] ([], fresh) =
     main linux_x86_64 1 [''offset''] ([], fresh) \<and>
   run linux_x86_64 3 [''offset'', ''--help'', ''x''] fresh = run linux_x86_64 1 [''offset''] fresh"
  by (rule main_ignores_arguments)

text \<open>
  C5. On one platform every run writes the same text: two runs, whatever their
  arguments, whatever standard output held before and whatever else their worlds hold,
  append the same line.
\<close>

theorem main_output_deterministic:
  assumes "builds p" and "stdout_sink w = Accepts" and "stdout_sink w' = Accepts"
  shows "\<exists>line. run p argc argv w = Inr (0, w\<lparr>stdout := stdout w @ line\<rparr>) \<and>
    run p argc' argv' w' = Inr (0, w'\<lparr>stdout := stdout w' @ line\<rparr>)"
proof -
  from assms(1) obtain off where off: "offsetof (TStruct (struct_stat p)) ''st_size'' = Some off"
    by (rule builds_offsetof)
  let ?line = "record_line (report off (sizeof (TStruct (struct_stat p))) p)"
  have "run p argc argv w = Inr (0, w\<lparr>stdout := stdout w @ ?line\<rparr>)"
    using assms(2) by (simp add: run_builds [OF assms(1) off] del: sizeof.simps)
  moreover have "run p argc' argv' w' = Inr (0, w'\<lparr>stdout := stdout w' @ ?line\<rparr>)"
    using assms(3) by (simp add: run_builds [OF assms(1) off] del: sizeof.simps)
  ultimately show ?thesis by blast
qed

theorem main_output_deterministic_linux:
  "builds linux_x86_64 \<and>
   (\<exists>line. run linux_x86_64 1 [''offset''] fresh = Inr (0, fresh\<lparr>stdout := stdout fresh @ line\<rparr>) \<and>
      run linux_x86_64 2 [''offset'', ''again''] \<lparr>stdout = ''earlier output'', stdout_sink = Accepts, stdout_tty = True\<rparr> =
        Inr (0, \<lparr>stdout = ''earlier output'' @ line, stdout_sink = Accepts, stdout_tty = True\<rparr>))"
  using main_output_deterministic [of linux_x86_64 fresh
      "\<lparr>stdout = ''earlier output'', stdout_sink = Accepts, stdout_tty = True\<rparr>" 1 "[''offset'']" 2 "[''offset'', ''again'']"]
    builds_linux
  by (simp add: fresh_def)




text \<open>
  C7. In the emitted record, \<open>statOffset\<close> plus the size of the member \<^verbatim>\<open>st_size\<close> is
  at most \<open>statSize\<close>.
\<close>

theorem size_field_within_stat:
  assumes "builds p"
  shows "\<exists>off sz t. emitted_field p ''statOffset'' = Some off \<and>
    emitted_field p ''statSize'' = Some sz \<and>
    member_type (TStruct (struct_stat p)) ''st_size'' = Some t \<and>
    off + int (sizeof t) \<le> sz"
proof -
  from assms obtain off where off: "offsetof (TStruct (struct_stat p)) ''st_size'' = Some off"
    by (rule builds_offsetof)
  from assms obtain t where t: "member_type (TStruct (struct_stat p)) ''st_size'' = Some t"
    using member_type_defined [of "''st_size''" "struct_stat p"] by (auto simp: builds_def)
  from off t have "off + sizeof t \<le> sizeof (TStruct (struct_stat p))"
    by (rule offsetof_within)
  then have "int off + int (sizeof t) \<le> int (sizeof (TStruct (struct_stat p)))"
    by linarith
  moreover have "emitted_field p ''statOffset'' = Some (int off)"
    unfolding emitted_field_builds [OF assms off] by (rule report_stat)
  moreover have "emitted_field p ''statSize'' = Some (int (sizeof (TStruct (struct_stat p))))"
    unfolding emitted_field_builds [OF assms off] by (rule report_stat)
  ultimately show ?thesis using t by blast
qed

theorem size_field_within_stat_linux:
  "builds linux_x86_64 \<and>
   (\<exists>off sz t. emitted_field linux_x86_64 ''statOffset'' = Some off \<and>
      emitted_field linux_x86_64 ''statSize'' = Some sz \<and>
      member_type (TStruct linux_stat) ''st_size'' = Some t \<and>
      off + int (sizeof t) \<le> sz)"
  using size_field_within_stat [of linux_x86_64] builds_linux
  by (simp only: struct_stat_linux)

text \<open>
  C8. On a platform whose headers give the usual values (\<open>O_RDONLY\<close> 0, \<open>O_WRONLY\<close> 1,
  \<open>O_RDWR\<close> 2, \<open>PROT_READ\<close> 1, \<open>PROT_WRITE\<close> 2, \<open>MAP_SHARED\<close> 1, and the pointer of all
  ones for \<open>MAP_FAILED\<close>), the emitted record holds 0, 1, 2, 1, 2, 1 and -1 for them.
\<close>

theorem common_platform_values:
  assumes "builds p"
    and "O_RDONLY p = 0" and "O_WRONLY p = 1" and "O_RDWR p = 2"
    and "PROT_READ p = 1" and "PROT_WRITE p = 2" and "MAP_SHARED p = 1"
    and "MAP_FAILED p = - 1"
  shows "emitted_field p ''O_RDONLY'' = Some 0 \<and> emitted_field p ''O_WRONLY'' = Some 1 \<and>
    emitted_field p ''O_RDWR'' = Some 2 \<and> emitted_field p ''PROT_READ'' = Some 1 \<and>
    emitted_field p ''PROT_WRITE'' = Some 2 \<and> emitted_field p ''MAP_SHARED'' = Some 1 \<and>
    emitted_field p ''MAP_FAILED'' = Some (- 1)"
proof -
  from assms(1) obtain off where off: "offsetof (TStruct (struct_stat p)) ''st_size'' = Some off"
    by (rule builds_offsetof)
  show ?thesis
    unfolding emitted_field_builds [OF assms(1) off] report_flags report_map_failed
    by (simp add: assms(2-))
qed

theorem common_platform_values_linux:
  "builds linux_x86_64 \<and>
   emitted_field linux_x86_64 ''O_RDONLY'' = Some 0 \<and>
   emitted_field linux_x86_64 ''O_WRONLY'' = Some 1 \<and>
   emitted_field linux_x86_64 ''O_RDWR'' = Some 2 \<and>
   emitted_field linux_x86_64 ''PROT_READ'' = Some 1 \<and>
   emitted_field linux_x86_64 ''PROT_WRITE'' = Some 2 \<and>
   emitted_field linux_x86_64 ''MAP_SHARED'' = Some 1 \<and>
   emitted_field linux_x86_64 ''MAP_FAILED'' = Some (- 1)"
  using common_platform_values [of linux_x86_64] builds_linux
  by (simp add: linux_x86_64_def)

text \<open>
  C9. The line a run appends is a JSON object: the reader accepts it, and reads the
  fourteen keys in the order of the format; the line ends with a newline and holds no
  other.
\<close>

theorem emitted_line_is_json:
  assumes "builds p" and "stdout_sink w = Accepts"
  shows "\<exists>line kvs. run p argc argv w = Inr (0, w\<lparr>stdout := stdout w @ line\<rparr>) \<and>
    json_object line = Some kvs \<and> map fst kvs = field_names \<and> one_line line"
proof -
  from assms(1) obtain off where off: "offsetof (TStruct (struct_stat p)) ''st_size'' = Some off"
    by (rule builds_offsetof)
  let ?r = "report off (sizeof (TStruct (struct_stat p))) p"
  have "run p argc argv w = Inr (0, w\<lparr>stdout := stdout w @ record_line ?r\<rparr>)"
    using assms(2) by (simp add: run_builds [OF assms(1) off] del: sizeof.simps)
  moreover have "json_object (record_line ?r) = Some ?r" by (rule json_object_report)
  moreover have "map fst ?r = field_names" by (rule report_keys)
  moreover have "one_line (record_line ?r)"
    using report_plain by (rule one_line_record_line)
  ultimately show ?thesis by blast
qed

theorem emitted_line_is_json_linux:
  "builds linux_x86_64 \<and> stdout_sink fresh = Accepts \<and>
   (\<exists>line kvs. run linux_x86_64 1 [''offset''] fresh = Inr (0, fresh\<lparr>stdout := stdout fresh @ line\<rparr>) \<and>
      json_object line = Some kvs \<and> map fst kvs = field_names \<and> one_line line)"
  using emitted_line_is_json [of linux_x86_64 fresh 1 "[''offset'']"] builds_linux
  by (simp add: fresh_def)

text \<open>
  C10, as amended. What \<^verbatim>\<open>printf\<close> returns is dropped. Where the write to standard
  output is refused with an error (a closed descriptor, a full device), the run still
  ends with exit status 0 and nothing is written: on a terminal \<^verbatim>\<open>printf\<close> itself
  returns a negative number, otherwise it returns the length of the text and the write
  fails when \<^verbatim>\<open>exit\<close> empties the buffer. A write that raises \<^verbatim>\<open>SIGPIPE\<close> is another
  matter: there the process has no exit status.
\<close>

theorem exit_status_ignores_write_error:
  assumes "builds p" and "stdout_sink w = Refuses"
  shows "\<exists>args s r st. main_args p = Some args \<and> vformat Text main_format args = Some s \<and>
    printf main_format args ([], w) = Some (Return r st) \<and>
    r = (if stdout_tty w then - 1 else int (length s)) \<and>
    main p argc argv ([], w) = Inr (0, st) \<and>
    run p argc argv w = Inr (0, w)"
proof -
  from assms(1) obtain off where off: "offsetof (TStruct (struct_stat p)) ''st_size'' = Some off"
    by (rule builds_offsetof)
  let ?line = "record_line (report off (sizeof (TStruct (struct_stat p))) p)"
  let ?r = "if stdout_tty w then - 1 else int (length ?line)"
  obtain args where args: "main_args p = Some args"
    using main_args_builds [OF assms(1) off] by simp
  have f: "vformat Text main_format args = Some ?line"
    using assms(1) off args by (rule format_report)
  have pr: "printf main_format args ([], w) = Some (Return ?r (?line, w))"
    using assms(2) by (simp add: printf_report [OF assms(1) off args] Let_def del: sizeof.simps)
  then have "main p argc argv ([], w) = Inr (0, (?line, w))"
    by (simp add: main_def args del: sizeof.simps)
  moreover have "run p argc argv w = Inr (0, w)"
    using assms(2) by (simp add: run_builds [OF assms(1) off] del: sizeof.simps)
  ultimately show ?thesis using args f pr by blast
qed

theorem exit_status_ignores_write_error_linux:
  "builds linux_x86_64 \<and> stdout_sink closed_stdout = Refuses \<and>
   (\<exists>args s r st. main_args linux_x86_64 = Some args \<and>
      vformat Text main_format args = Some s \<and>
      printf main_format args ([], closed_stdout) = Some (Return r st) \<and>
      r = 245 \<and>
      main linux_x86_64 1 [''offset''] ([], closed_stdout) = Inr (0, st) \<and>
      run linux_x86_64 1 [''offset''] closed_stdout = Inr (0, closed_stdout))"
proof -
  have "stdout_sink closed_stdout = Refuses" and tty: "\<not> stdout_tty closed_stdout"
    by (simp_all add: closed_stdout_def)
  with exit_status_ignores_write_error [OF builds_linux, of closed_stdout 1 "[''offset'']"]
  obtain args s r st where
    args: "main_args linux_x86_64 = Some args" and
    s: "vformat Text main_format args = Some s" and
    pr: "printf main_format args ([], closed_stdout) = Some (Return r st)" and
    "r = int (length s)" and
    m: "main linux_x86_64 1 [''offset''] ([], closed_stdout) = Inr (0, st)" and
    e: "run linux_x86_64 1 [''offset''] closed_stdout = Inr (0, closed_stdout)"
    by auto
  from args have "args = [VULong 48, VULong 144, VInt 0, VInt 1, VInt 2, VInt 1, VInt 2,
      VInt 0, VInt 1, VInt 2, VInt 3, VInt 4, VLongLong (- 1), VInt 1]"
    by (simp add: main_args_linux)
  with pr have "r = 245" by (simp add: printf_linux_closed)
  with args s pr m e show ?thesis
    using builds_linux \<open>stdout_sink closed_stdout = Refuses\<close> by blast
qed

text \<open>
  A failing write after which there is no exit status 0: the write to a pipe whose reader
  is gone raises the signal, and the run of the program ends by it.
\<close>

theorem write_failure_without_status:
  "write_stdout ''x'' \<lparr>stdout = ''earlier output'', stdout_sink = Raises_SIGPIPE, stdout_tty = False\<rparr> =
     Signalled SIGPIPE \<and>
   run linux_x86_64 2 [''offset'', ''again'']
     \<lparr>stdout = ''earlier output'', stdout_sink = Raises_SIGPIPE, stdout_tty = False\<rparr> =
     Inl (Killed SIGPIPE)"
  by (simp add: run_linux_cases write_stdout_def)

end
